theory Spec2Isabelle
  imports Complex_Main "HOL-Library.AList"
begin

section \<open>Domain enums (src/domain/enums.py)\<close>

datatype WorkflowStatus = DRAFT | ACTIVE | DEPRECATED | ARCHIVED

datatype ExecutionStatus = PENDING | RUNNING | COMPLETED | FAILED | RETRYING | CANCELLED

datatype StepStatus = STEP_PENDING | STEP_RUNNING | STEP_COMPLETED | STEP_FAILED | STEP_SKIPPED

datatype LogLevel = DEBUG | INFO | WARNING | ERROR

section \<open>State machine (src/domain/state_machine.py)\<close>

text \<open>
  \<^verbatim>\<open>WorkflowStateMachine.TRANSITIONS\<close> is a dict from a state to a Python \<^verbatim>\<open>set\<close> of
  states. Membership does not depend on any order; the elements are listed in the order
  of the source literal.
\<close>

fun TRANSITIONS :: "ExecutionStatus \<Rightarrow> ExecutionStatus list" where
  "TRANSITIONS PENDING = [RUNNING, CANCELLED]"
| "TRANSITIONS RUNNING = [COMPLETED, FAILED, CANCELLED]"
| "TRANSITIONS FAILED = [RETRYING, CANCELLED]"
| "TRANSITIONS RETRYING = [RUNNING, FAILED, CANCELLED]"
| "TRANSITIONS COMPLETED = []"
| "TRANSITIONS CANCELLED = []"

definition TERMINAL_STATES :: "ExecutionStatus list" where
  "TERMINAL_STATES = [COMPLETED, FAILED, CANCELLED]"

definition RETRYABLE_STATES :: "ExecutionStatus list" where
  "RETRYABLE_STATES = [FAILED]"

definition can_transition :: "ExecutionStatus \<Rightarrow> ExecutionStatus \<Rightarrow> bool" where
  "can_transition from_state to_state = (to_state \<in> set (TRANSITIONS from_state))"

datatype transition_error = InvalidTransitionError ExecutionStatus ExecutionStatus

text \<open>\<^verbatim>\<open>validate_transition\<close> returns \<^verbatim>\<open>None\<close> or raises: the raise is the \<open>Inl\<close> branch.\<close>

definition validate_transition ::
  "ExecutionStatus \<Rightarrow> ExecutionStatus \<Rightarrow> transition_error + unit" where
  "validate_transition from_state to_state =
     (if \<not> can_transition from_state to_state
      then Inl (InvalidTransitionError from_state to_state)
      else Inr ())"

definition transition ::
  "ExecutionStatus \<Rightarrow> ExecutionStatus \<Rightarrow> transition_error + ExecutionStatus" where
  "transition from_state to_state =
     (case validate_transition from_state to_state of
        Inl e \<Rightarrow> Inl e
      | Inr _ \<Rightarrow> Inr to_state)"

definition sm_is_terminal :: "ExecutionStatus \<Rightarrow> bool" where
  "sm_is_terminal state = (state \<in> set TERMINAL_STATES)"

definition sm_can_retry :: "ExecutionStatus \<Rightarrow> bool" where
  "sm_can_retry state = (state \<in> set RETRYABLE_STATES)"

subsection \<open>get\_transition\_path: breadth-first search\<close>

text \<open>
  The inner \<^verbatim>\<open>for next_state in cls.TRANSITIONS.get(current, set())\<close> iterates over a
  Python set, whose iteration order the language does not fix. The model therefore takes
  the order as a parameter \<open>order\<close>: for each state, the list in which the loop meets
  its successors. \<open>scan_transitions\<close> is the \<^verbatim>\<open>for\<close> loop (\<open>Inl\<close> is the early
  \<^verbatim>\<open>return path + [next_state]\<close>), \<open>bfs_loop\<close> the \<^verbatim>\<open>while queue\<close> loop with
  \<^verbatim>\<open>popleft\<close> at the head and \<^verbatim>\<open>append\<close> at the end of the list.
\<close>

type_synonym path = "ExecutionStatus list"

definition all_states :: "ExecutionStatus list" where
  "all_states = [PENDING, RUNNING, COMPLETED, FAILED, RETRYING, CANCELLED]"

fun scan_transitions ::
  "ExecutionStatus \<Rightarrow> path \<Rightarrow> ExecutionStatus list \<Rightarrow> ExecutionStatus set \<Rightarrow>
   (ExecutionStatus \<times> path) list \<Rightarrow> path + (ExecutionStatus set \<times> (ExecutionStatus \<times> path) list)" where
  "scan_transitions to_state path [] visited queue = Inr (visited, queue)"
| "scan_transitions to_state path (next_state # rest) visited queue =
     (if next_state = to_state then Inl (path @ [next_state])
      else if next_state \<notin> visited
      then scan_transitions to_state path rest (insert next_state visited)
             (queue @ [(next_state, path @ [next_state])])
      else scan_transitions to_state path rest visited queue)"

definition unvisited :: "ExecutionStatus set \<Rightarrow> nat" where
  "unvisited visited = length (filter (\<lambda>s. s \<notin> visited) all_states)"

lemma unvisited_insert_Suc:
  "s \<notin> visited \<Longrightarrow> Suc (unvisited (insert s visited)) = unvisited visited"
  by (cases s) (auto simp: unvisited_def all_states_def)

lemma scan_transitions_measure:
  "scan_transitions to_state path ns visited queue = Inr (visited', queue') \<Longrightarrow>
   unvisited visited' + length queue' = unvisited visited + length queue"
proof (induction ns arbitrary: visited queue)
  case Nil
  then show ?case by simp
next
  case (Cons n ns)
  then show ?case
    using unvisited_insert_Suc [of n visited]
    by (auto split: if_splits)
qed

function bfs_loop ::
  "(ExecutionStatus \<Rightarrow> ExecutionStatus list) \<Rightarrow> ExecutionStatus \<Rightarrow> ExecutionStatus set \<Rightarrow>
   (ExecutionStatus \<times> path) list \<Rightarrow> path option" where
  "bfs_loop order to_state visited [] = None"
| "bfs_loop order to_state visited ((current, path) # queue) =
     (case scan_transitions to_state path (order current) visited queue of
        Inl found \<Rightarrow> Some found
      | Inr (visited', queue') \<Rightarrow> bfs_loop order to_state visited' queue')"
  by pat_completeness auto
termination
  by (relation "measure (\<lambda>(order, to_state, visited, queue). unvisited visited + length queue)")
     (auto dest: scan_transitions_measure)

definition get_transition_path ::
  "(ExecutionStatus \<Rightarrow> ExecutionStatus list) \<Rightarrow> ExecutionStatus \<Rightarrow> ExecutionStatus \<Rightarrow> path option" where
  "get_transition_path order from_state to_state =
     (if from_state = to_state then Some [from_state]
      else bfs_loop order to_state {from_state} [(from_state, [from_state])])"

text \<open>Any iteration order of the sets of \<open>TRANSITIONS\<close>: a duplicate-free listing of each.\<close>

definition iteration_order :: "(ExecutionStatus \<Rightarrow> ExecutionStatus list) \<Rightarrow> bool" where
  "iteration_order order =
     list_all (\<lambda>s. distinct (order s) \<and> set (order s) = set (TRANSITIONS s)) all_states"

text \<open>
  Paths of legal single-step transitions, and reachability through them (a state reaches
  itself by the one-state path).
\<close>

fun legal_path :: "path \<Rightarrow> bool" where
  "legal_path [] = False"
| "legal_path [s] = True"
| "legal_path (s # t # rest) = (can_transition s t \<and> legal_path (t # rest))"

definition reachable :: "ExecutionStatus \<Rightarrow> ExecutionStatus \<Rightarrow> bool" where
  "reachable a b = (\<exists>q. legal_path q \<and> hd q = a \<and> last q = b)"

text \<open>The expected answers, used only to organise the proofs about the search.\<close>

fun route :: "ExecutionStatus \<Rightarrow> ExecutionStatus \<Rightarrow> path option" where
  "route PENDING PENDING = Some [PENDING]"
| "route PENDING RUNNING = Some [PENDING, RUNNING]"
| "route PENDING COMPLETED = Some [PENDING, RUNNING, COMPLETED]"
| "route PENDING FAILED = Some [PENDING, RUNNING, FAILED]"
| "route PENDING RETRYING = Some [PENDING, RUNNING, FAILED, RETRYING]"
| "route PENDING CANCELLED = Some [PENDING, CANCELLED]"
| "route RUNNING PENDING = None"
| "route RUNNING RUNNING = Some [RUNNING]"
| "route RUNNING COMPLETED = Some [RUNNING, COMPLETED]"
| "route RUNNING FAILED = Some [RUNNING, FAILED]"
| "route RUNNING RETRYING = Some [RUNNING, FAILED, RETRYING]"
| "route RUNNING CANCELLED = Some [RUNNING, CANCELLED]"
| "route FAILED PENDING = None"
| "route FAILED RUNNING = Some [FAILED, RETRYING, RUNNING]"
| "route FAILED COMPLETED = Some [FAILED, RETRYING, RUNNING, COMPLETED]"
| "route FAILED FAILED = Some [FAILED]"
| "route FAILED RETRYING = Some [FAILED, RETRYING]"
| "route FAILED CANCELLED = Some [FAILED, CANCELLED]"
| "route RETRYING PENDING = None"
| "route RETRYING RUNNING = Some [RETRYING, RUNNING]"
| "route RETRYING COMPLETED = Some [RETRYING, RUNNING, COMPLETED]"
| "route RETRYING FAILED = Some [RETRYING, FAILED]"
| "route RETRYING RETRYING = Some [RETRYING]"
| "route RETRYING CANCELLED = Some [RETRYING, CANCELLED]"
| "route COMPLETED b = (if b = COMPLETED then Some [COMPLETED] else None)"
| "route CANCELLED b = (if b = CANCELLED then Some [CANCELLED] else None)"

text \<open>
  The table of section 4.1 of the specification, written from the specification's words
  as a list of (from, to) pairs, to be compared with \<open>can_transition\<close>.
\<close>

definition spec_table :: "(ExecutionStatus \<times> ExecutionStatus) list" where
  "spec_table =
     [(PENDING, RUNNING), (PENDING, CANCELLED),
      (RUNNING, COMPLETED), (RUNNING, FAILED), (RUNNING, CANCELLED),
      (FAILED, RETRYING), (FAILED, CANCELLED),
      (RETRYING, RUNNING), (RETRYING, FAILED), (RETRYING, CANCELLED)]"

section \<open>Entities (src/domain/entities.py)\<close>

text \<open>
  Identifiers are produced by \<^verbatim>\<open>uuid4()\<close>; the model draws them from a counter of the
  world. Timestamps are readings of the world's clock. JSON-shaped values are the
  datatype \<open>json\<close>; a Python \<^verbatim>\<open>dict\<close> with string keys is an association list in
  insertion order.

  Strings built by f-strings are kept as the template and its arguments (the datatype
  \<open>pystr\<close>), one constructor per template of the source.
\<close>

type_synonym uuid = nat

type_synonym datetime = nat

datatype pystr =
    Lit string
  | PyNone
  | WorkflowNotFound uuid
  | CannotExecuteWorkflow WorkflowStatus
  | ExecutionAlreadyExists string
  | ExecutionNotFound uuid
  | InvalidTransition ExecutionStatus ExecutionStatus
  | CannotCancelTerminal ExecutionStatus
  | CanOnlyRetryFailed ExecutionStatus
  | MaximumRetriesExceeded int
  | RetryInitiated int int
  | ExecutionCreated uuid
  | StatusChanged ExecutionStatus ExecutionStatus
  | ExecutionWasCancelled uuid
  | NoHandlerRegistered string
  | StartingStep string int int
  | StepCompletedSuccessfully string
  | StepAttemptFailed string int pystr
  | StepFailedAfter int pystr
  | StepFailed string pystr
  | UnexpectedError pystr
  | ExecutionFailed pystr

datatype json =
    JNull
  | JBool bool
  | JInt int
  | JStr pystr
  | JList "json list"
  | JDict "(string \<times> json) list"

type_synonym json_dict = "(string \<times> json) list"

record WorkflowStep =
  step_id :: uuid
  step_workflow_id :: uuid
  step_name :: string
  step_task_type :: string
  step_order :: int
  step_config :: json_dict
  step_timeout_seconds :: int
  step_max_retries :: int
  step_created_at :: datetime
  step_updated_at :: datetime

record Workflow =
  wf_id :: uuid
  wf_name :: string
  wf_description :: string
  wf_status :: WorkflowStatus
  wf_version :: int
  wf_steps :: "WorkflowStep list"
  wf_metadata :: json_dict
  wf_created_at :: datetime
  wf_updated_at :: datetime

record StepExecution =
  se_id :: uuid
  se_execution_id :: uuid
  se_step_id :: uuid
  se_step_order :: int
  se_status :: StepStatus
  se_attempt_number :: int
  se_input_data :: json_dict
  se_output_data :: "json_dict option"
  se_error_message :: "pystr option"
  se_error_details :: "json_dict option"
  se_started_at :: "datetime option"
  se_completed_at :: "datetime option"
  se_created_at :: datetime
  se_updated_at :: datetime

text \<open>
  \<^verbatim>\<open>WorkflowExecution.step_executions\<close> is filled from the step-execution table when an
  execution is read by id and never written back; the model leaves the field out and reads
  the table.
\<close>

record WorkflowExecution =
  ex_id :: uuid
  ex_workflow_id :: uuid
  ex_idempotency_key :: string
  ex_status :: ExecutionStatus
  ex_current_step_order :: int
  ex_retry_count :: int
  ex_max_retries :: int
  ex_input_data :: json_dict
  ex_output_data :: "json_dict option"
  ex_error_message :: "pystr option"
  ex_scheduled_at :: "datetime option"
  ex_started_at :: "datetime option"
  ex_completed_at :: "datetime option"
  ex_created_at :: datetime
  ex_updated_at :: datetime

record ExecutionLog =
  log_id :: uuid
  log_execution_id :: uuid
  log_step_execution_id :: "uuid option"
  log_level :: LogLevel
  log_message :: pystr
  log_details :: json_dict
  log_timestamp :: datetime

text \<open>\<^verbatim>\<open>WorkflowExecution.is_terminal\<close> and \<^verbatim>\<open>can_retry\<close> (properties of the entity).\<close>

definition is_terminal :: "WorkflowExecution \<Rightarrow> bool" where
  "is_terminal e = (ex_status e \<in> set [COMPLETED, FAILED, CANCELLED])"

definition can_retry :: "WorkflowExecution \<Rightarrow> bool" where
  "can_retry e = (ex_status e = FAILED \<and> ex_retry_count e < ex_max_retries e)"

section \<open>The world: durable store, identifier supply, clock, observable effects\<close>

text \<open>
  A table is the list of its rows in insertion order. \<open>effects\<close> records, in order, what
  the orchestrator does outside the store: each call of a handler's \<^verbatim>\<open>execute\<close> (with the
  step and the attempt) and each \<^verbatim>\<open>time.sleep\<close> (with its delay). Python floats are
  modelled by real numbers. The operations of the store always succeed: losing the
  connection to the database is outside the model, as is a second worker writing at the
  same time.
\<close>

datatype effect = HandlerExecute uuid int | Sleep real

record world =
  workflows :: "Workflow list"
  workflow_steps :: "WorkflowStep list"
  workflow_executions :: "WorkflowExecution list"
  step_executions :: "StepExecution list"
  execution_logs :: "ExecutionLog list"
  next_uuid :: uuid
  clock :: datetime
  effects :: "effect list"

definition uuid4 :: "world \<Rightarrow> uuid \<times> world" where
  "uuid4 w = (next_uuid w, w\<lparr>next_uuid := Suc (next_uuid w)\<rparr>)"

definition utcnow :: "world \<Rightarrow> datetime" where
  "utcnow w = clock w"

section \<open>Repositories (src/persistence/repositories.py)\<close>




definition get_execution_by_id :: "world \<Rightarrow> uuid \<Rightarrow> WorkflowExecution option" where
  "get_execution_by_id w execution_id =
     find (\<lambda>e. ex_id e = execution_id) (workflow_executions w)"

definition get_execution_by_idempotency_key ::
  "world \<Rightarrow> uuid \<Rightarrow> string \<Rightarrow> WorkflowExecution option" where
  "get_execution_by_idempotency_key w workflow_id idempotency_key =
     find (\<lambda>e. ex_workflow_id e = workflow_id \<and> ex_idempotency_key e = idempotency_key)
       (workflow_executions w)"

definition update_execution_row ::
  "datetime \<Rightarrow> ExecutionStatus \<Rightarrow> pystr option \<Rightarrow> int option \<Rightarrow> WorkflowExecution \<Rightarrow> WorkflowExecution" where
  "update_execution_row now status error_message current_step_order e =
     e\<lparr>ex_status := status,
       ex_updated_at := now,
       ex_error_message :=
         (case error_message of None \<Rightarrow> ex_error_message e | Some m \<Rightarrow> Some m),
       ex_current_step_order :=
         (case current_step_order of None \<Rightarrow> ex_current_step_order e | Some n \<Rightarrow> n),
       ex_started_at :=
         (if status = RUNNING
          then (case ex_started_at e of None \<Rightarrow> Some now | Some t \<Rightarrow> Some t)
          else ex_started_at e),
       ex_completed_at :=
         (if status = RUNNING then ex_completed_at e
          else if status \<in> set [COMPLETED, FAILED, CANCELLED] then Some now
          else ex_completed_at e)\<rparr>"

definition update_execution_status ::
  "world \<Rightarrow> uuid \<Rightarrow> ExecutionStatus \<Rightarrow> pystr option \<Rightarrow> int option \<Rightarrow> world" where
  "update_execution_status w execution_id status error_message current_step_order =
     w\<lparr>workflow_executions :=
         map (\<lambda>e. if ex_id e = execution_id
                  then update_execution_row (utcnow w) status error_message current_step_order e
                  else e)
           (workflow_executions w)\<rparr>"



text \<open>The columns of a step-execution row that no update writes.\<close>

definition se_key :: "StepExecution \<Rightarrow> uuid \<times> uuid \<times> uuid \<times> int \<times> int" where
  "se_key r = (se_id r, se_execution_id r, se_step_id r, se_step_order r, se_attempt_number r)"

definition repo_create_step_execution :: "world \<Rightarrow> StepExecution \<Rightarrow> StepExecution \<times> world" where
  "repo_create_step_execution w step_exec =
     (step_exec, w\<lparr>step_executions := step_executions w @ [step_exec]\<rparr>)"

definition update_step_execution_row ::
  "datetime \<Rightarrow> StepStatus \<Rightarrow> json_dict option \<Rightarrow> pystr option \<Rightarrow> json_dict option \<Rightarrow>
   StepExecution \<Rightarrow> StepExecution" where
  "update_step_execution_row now status output_data error_message error_details r =
     r\<lparr>se_status := status,
       se_updated_at := now,
       se_output_data := (case output_data of None \<Rightarrow> se_output_data r | Some d \<Rightarrow> Some d),
       se_error_message :=
         (case error_message of None \<Rightarrow> se_error_message r | Some m \<Rightarrow> Some m),
       se_error_details :=
         (case error_details of None \<Rightarrow> se_error_details r | Some d \<Rightarrow> Some d),
       se_started_at := (if status = STEP_RUNNING then Some now else se_started_at r),
       se_completed_at :=
         (if status = STEP_RUNNING then se_completed_at r
          else if status \<in> set [STEP_COMPLETED, STEP_FAILED, STEP_SKIPPED] then Some now
          else se_completed_at r)\<rparr>"

definition update_step_execution ::
  "world \<Rightarrow> uuid \<Rightarrow> StepStatus \<Rightarrow> json_dict option \<Rightarrow> pystr option \<Rightarrow> json_dict option \<Rightarrow> world" where
  "update_step_execution w step_exec_id status output_data error_message error_details =
     w\<lparr>step_executions :=
         map (\<lambda>r. if se_id r = step_exec_id
                  then update_step_execution_row (utcnow w) status output_data error_message
                         error_details r
                  else r)
           (step_executions w)\<rparr>"

definition create_log :: "world \<Rightarrow> ExecutionLog \<Rightarrow> ExecutionLog \<times> world" where
  "create_log w entry = (entry, w\<lparr>execution_logs := execution_logs w @ [entry]\<rparr>)"

section \<open>Execution service (src/services/execution\_service.py)\<close>

text \<open>
  Exceptions are values: a service call returns \<open>Inl\<close> of the exception raised or
  \<open>Inr\<close> of its result, together with the world it leaves. In Python
  \<^verbatim>\<open>ExecutionNotFoundError\<close>, \<^verbatim>\<open>DuplicateExecutionError\<close> and \<^verbatim>\<open>ExecutionStateError\<close>
  are subclasses of \<^verbatim>\<open>ExecutionServiceError\<close>, and \<^verbatim>\<open>StepExecutionError\<close> of
  \<^verbatim>\<open>OrchestratorError\<close>.
\<close>

datatype error =
    ExecutionServiceError pystr
  | ExecutionNotFoundError pystr
  | DuplicateExecutionError WorkflowExecution
  | ExecutionStateError pystr
  | OrchestratorError pystr
  | StepExecutionError string pystr json_dict

fun str_error :: "error \<Rightarrow> pystr" where
  "str_error (ExecutionServiceError m) = m"
| "str_error (ExecutionNotFoundError m) = m"
| "str_error (DuplicateExecutionError existing) = ExecutionAlreadyExists (ex_idempotency_key existing)"
| "str_error (ExecutionStateError m) = m"
| "str_error (OrchestratorError m) = m"
| "str_error (StepExecutionError name message details) = StepFailed name message"

fun str_transition_error :: "transition_error \<Rightarrow> pystr" where
  "str_transition_error (InvalidTransitionError from_state to_state) =
     InvalidTransition from_state to_state"

fun ExecutionStatus_value :: "ExecutionStatus \<Rightarrow> string" where
  "ExecutionStatus_value PENDING = ''pending''"
| "ExecutionStatus_value RUNNING = ''running''"
| "ExecutionStatus_value COMPLETED = ''completed''"
| "ExecutionStatus_value FAILED = ''failed''"
| "ExecutionStatus_value RETRYING = ''retrying''"
| "ExecutionStatus_value CANCELLED = ''cancelled''"

definition json_of_str_option :: "pystr option \<Rightarrow> json" where
  "json_of_str_option m = (case m of None \<Rightarrow> JNull | Some t \<Rightarrow> JStr t)"

definition json_of_dict_option :: "json_dict option \<Rightarrow> json" where
  "json_of_dict_option d = (case d of None \<Rightarrow> JNull | Some x \<Rightarrow> JDict x)"

text \<open>\<^verbatim>\<open>ExecutionLog.create\<close> followed by \<^verbatim>\<open>log_repo.create_log\<close>.\<close>

definition log_entry ::
  "world \<Rightarrow> uuid \<Rightarrow> LogLevel \<Rightarrow> pystr \<Rightarrow> uuid option \<Rightarrow> json_dict \<Rightarrow> world" where
  "log_entry w execution_id level message step_execution_id details =
     (let (new_id, w1) = uuid4 w;
          entry = \<lparr>log_id = new_id, log_execution_id = execution_id,
                 log_step_execution_id = step_execution_id, log_level = level,
                 log_message = message, log_details = details,
                 log_timestamp = utcnow w1\<rparr>
      in snd (create_log w1 entry))"



definition get_execution :: "world \<Rightarrow> uuid \<Rightarrow> error + WorkflowExecution" where
  "get_execution w execution_id =
     (case get_execution_by_id w execution_id of
        None \<Rightarrow> Inl (ExecutionNotFoundError (ExecutionNotFound execution_id))
      | Some execution \<Rightarrow> Inr execution)"

text \<open>
  \<^verbatim>\<open>transition_status\<close> returns the entity it loaded, with the new status and the given
  fields set on that Python object (not the row re-read from the store). The truthiness
  test \<^verbatim>\<open>if error_message\<close> fails for \<^verbatim>\<open>None\<close> and for the empty string; no caller
  passes an empty message.
\<close>

definition transition_status ::
  "world \<Rightarrow> uuid \<Rightarrow> ExecutionStatus \<Rightarrow> pystr option \<Rightarrow> int option \<Rightarrow>
   (error + WorkflowExecution) \<times> world" where
  "transition_status w execution_id new_status error_message current_step_order =
     (case get_execution w execution_id of
        Inl e \<Rightarrow> (Inl e, w)
      | Inr execution \<Rightarrow>
          (case validate_transition (ex_status execution) new_status of
             Inl e \<Rightarrow> (Inl (ExecutionStateError (str_transition_error e)), w)
           | Inr _ \<Rightarrow>
               (let w1 = update_execution_status w execution_id new_status error_message
                           current_step_order;
                    w2 = log_entry w1 execution_id INFO
                           (StatusChanged (ex_status execution) new_status) None
                           [(''previous_status'', JStr (Lit (ExecutionStatus_value (ex_status execution)))),
                            (''new_status'', JStr (Lit (ExecutionStatus_value new_status))),
                            (''error_message'', json_of_str_option error_message)];
                    execution' = execution\<lparr>
                      ex_status := new_status,
                      ex_error_message :=
                        (case error_message of None \<Rightarrow> ex_error_message execution
                         | Some m \<Rightarrow> Some m),
                      ex_current_step_order :=
                        (case current_step_order of None \<Rightarrow> ex_current_step_order execution
                         | Some n \<Rightarrow> n)\<rparr>
                in (Inr execution', w2))))"



definition fail_execution :: "world \<Rightarrow> uuid \<Rightarrow> pystr \<Rightarrow> (error + WorkflowExecution) \<times> world" where
  "fail_execution w execution_id error_message =
     transition_status w execution_id FAILED (Some error_message) None"


definition cancel_execution :: "world \<Rightarrow> uuid \<Rightarrow> (error + WorkflowExecution) \<times> world" where
  "cancel_execution w execution_id =
     (case get_execution w execution_id of
        Inl e \<Rightarrow> (Inl e, w)
      | Inr execution \<Rightarrow>
          if is_terminal execution
          then (Inl (ExecutionStateError (CannotCancelTerminal (ex_status execution))), w)
          else transition_status w execution_id CANCELLED None None)"

definition StepExecution_create ::
  "world \<Rightarrow> uuid \<Rightarrow> uuid \<Rightarrow> int \<Rightarrow> json_dict option \<Rightarrow> StepExecution \<times> world" where
  "StepExecution_create w execution_id step_id' step_order' input_data =
     (let now = utcnow w;
          (new_id, w1) = uuid4 w
      in (\<lparr>se_id = new_id, se_execution_id = execution_id, se_step_id = step_id',
           se_step_order = step_order', se_status = STEP_PENDING, se_attempt_number = 1,
           se_input_data = (case input_data of None \<Rightarrow> [] | Some d \<Rightarrow> d),
           se_output_data = None, se_error_message = None, se_error_details = None,
           se_started_at = None, se_completed_at = None,
           se_created_at = now, se_updated_at = now\<rparr>, w1))"

definition create_step_execution ::
  "world \<Rightarrow> uuid \<Rightarrow> uuid \<Rightarrow> int \<Rightarrow> json_dict option \<Rightarrow> StepExecution \<times> world" where
  "create_step_execution w execution_id step_id' step_order' input_data =
     (let (step_exec, w1) = StepExecution_create w execution_id step_id' step_order' input_data
      in repo_create_step_execution w1 step_exec)"

section \<open>Configuration (src/config/settings.py)\<close>

text \<open>The settings the orchestrator, the worker and the queue read, with their defaults.\<close>

record Config =
  MAX_RETRIES :: int
  RETRY_BASE_DELAY :: real
  RETRY_MAX_DELAY :: real
  QUEUE_NAME :: string
  QUEUE_PROCESSING_TIMEOUT :: int

definition default_config :: Config where
  "default_config =
     \<lparr>MAX_RETRIES = 3, RETRY_BASE_DELAY = 1, RETRY_MAX_DELAY = 300,
      QUEUE_NAME = ''workflow_tasks'', QUEUE_PROCESSING_TIMEOUT = 30\<rparr>"

section \<open>Task handlers (src/services/task\_handlers.py)\<close>

text \<open>
  A handler is a Python object whose \<^verbatim>\<open>execute(step_config, input_data, timeout)\<close>
  returns an output dict (or \<^verbatim>\<open>None\<close>) or raises. It may keep state between calls (a
  flaky handler fails on its first call and succeeds on the second), so the outcome of a
  call is a function of the arguments and of the number of the attempt within the current
  step execution; that number is the first argument of the model. An exception is
  represented by what the orchestrator reads from it: the name of its type, \<^verbatim>\<open>str(e)\<close>
  and the formatted traceback. The registry is the dict from task type to handler.
\<close>

record exn =
  exn_type :: string
  exn_str :: string
  exn_traceback :: string

type_synonym TaskHandler = "int \<Rightarrow> json_dict \<Rightarrow> json_dict \<Rightarrow> int \<Rightarrow> exn + json_dict option"

type_synonym TaskHandlerRegistry = "string \<Rightarrow> TaskHandler option"

definition get_handler :: "TaskHandlerRegistry \<Rightarrow> string \<Rightarrow> TaskHandler option" where
  "get_handler registry task_type = registry task_type"

section \<open>Orchestrator (src/services/orchestrator.py)\<close>

definition record_effect :: "world \<Rightarrow> effect \<Rightarrow> world" where
  "record_effect w x = w\<lparr>effects := effects w @ [x]\<rparr>"

definition sleep :: "world \<Rightarrow> real \<Rightarrow> world" where
  "sleep w delay = record_effect w (Sleep delay)"

text \<open>\<^verbatim>\<open>_calculate_backoff\<close>; \<open>attempt\<close> is at least 1 wherever it is called.\<close>

definition calculate_backoff :: "Config \<Rightarrow> int \<Rightarrow> real" where
  "calculate_backoff config attempt =
     (let delay = RETRY_BASE_DELAY config * 2 ^ nat attempt
      in min delay (RETRY_MAX_DELAY config))"

definition fail_step :: "world \<Rightarrow> uuid \<Rightarrow> uuid \<Rightarrow> pystr \<Rightarrow> json_dict option \<Rightarrow> world" where
  "fail_step w step_exec_id execution_id error_message error_details =
     update_step_execution w step_exec_id STEP_FAILED None (Some error_message) error_details"

definition str_last_error :: "exn option \<Rightarrow> pystr" where
  "str_last_error last_error = (case last_error of None \<Rightarrow> PyNone | Some e \<Rightarrow> Lit (exn_str e))"

text \<open>
  The \<^verbatim>\<open>while attempt < step.max_retries\<close> loop of \<^verbatim>\<open>_execute_step\<close>. It either
  returns the handler's output from inside the loop, or ends with the loop condition false,
  handing the attempt counter and the last error to the code after the loop.
\<close>

datatype attempts_result = Returned "json_dict option" | Exhausted int "exn option"

function execute_step_attempts ::
  "Config \<Rightarrow> TaskHandler \<Rightarrow> uuid \<Rightarrow> WorkflowStep \<Rightarrow> json_dict \<Rightarrow> uuid \<Rightarrow> int \<Rightarrow> exn option \<Rightarrow>
   world \<Rightarrow> attempts_result \<times> world" where
  "execute_step_attempts config handler execution_id step input_data step_exec_id attempt
     last_error w =
     (if attempt < step_max_retries step then
        (let attempt' = attempt + 1;
             w1 = update_step_execution w step_exec_id STEP_RUNNING None None None;
             w2 = log_entry w1 execution_id INFO
                    (StartingStep (step_name step) attempt' (step_max_retries step))
                    (Some step_exec_id) [(''attempt'', JInt attempt')];
             w3 = record_effect w2 (HandlerExecute (step_id step) attempt')
         in case handler attempt' (step_config step) input_data (step_timeout_seconds step) of
              Inr output \<Rightarrow>
                (let w4 = update_step_execution w3 step_exec_id STEP_COMPLETED output None None;
                     w5 = log_entry w4 execution_id INFO
                            (StepCompletedSuccessfully (step_name step)) (Some step_exec_id) []
                 in (Returned output, w5))
            | Inl e \<Rightarrow>
                (let w4 = log_entry w3 execution_id ERROR
                            (StepAttemptFailed (step_name step) attempt' (Lit (exn_str e)))
                            (Some step_exec_id)
                            [(''error_type'', JStr (Lit (exn_type e))),
                             (''error_message'', JStr (Lit (exn_str e))),
                             (''traceback'', JStr (Lit (exn_traceback e))),
                             (''attempt'', JInt attempt')];
                     w5 = (if attempt' < step_max_retries step
                           then sleep w4 (calculate_backoff config attempt')
                           else w4)
                 in execute_step_attempts config handler execution_id step input_data
                      step_exec_id attempt' (Some e) w5))
      else (Exhausted attempt last_error, w))"
  by pat_completeness auto
termination
  by (relation "measure (\<lambda>(config, handler, execution_id, step, input_data, step_exec_id,
        attempt, last_error, w). nat (step_max_retries step - attempt))") auto

definition execute_step ::
  "Config \<Rightarrow> TaskHandlerRegistry \<Rightarrow> world \<Rightarrow> uuid \<Rightarrow> WorkflowStep \<Rightarrow> json_dict \<Rightarrow>
   (error + json_dict option) \<times> world" where
  "execute_step config registry w execution_id step input_data =
     (let (step_exec, w1) =
            create_step_execution w execution_id (step_id step) (step_order step)
              (Some input_data)
      in case get_handler registry (step_task_type step) of
           None \<Rightarrow>
             (let error_msg = NoHandlerRegistered (step_task_type step);
                  w2 = fail_step w1 (se_id step_exec) execution_id error_msg None
              in (Inl (StepExecutionError (step_name step) error_msg []), w2))
         | Some handler \<Rightarrow>
             (case execute_step_attempts config handler execution_id step input_data
                     (se_id step_exec) 0 None w1 of
                (Returned output, w2) \<Rightarrow> (Inr output, w2)
              | (Exhausted attempt last_error, w2) \<Rightarrow>
                  (let error_msg =
                         StepFailedAfter (step_max_retries step) (str_last_error last_error);
                       w3 = fail_step w2 (se_id step_exec) execution_id
                              (str_last_error last_error)
                              (Some [(''final_attempt'', JInt attempt),
                                     (''error'', JStr (str_last_error last_error))])
                   in (Inl (StepExecutionError (step_name step) error_msg
                              [(''last_error'', JStr (str_last_error last_error))]), w3))))"

definition handle_step_failure ::
  "world \<Rightarrow> uuid \<Rightarrow> WorkflowStep \<Rightarrow> error \<Rightarrow> (error + WorkflowExecution) \<times> world" where
  "handle_step_failure w execution_id step err =
     fail_execution w execution_id (StepFailed (step_name step) (str_error err))"

fun is_StepExecutionError :: "error \<Rightarrow> bool" where
  "is_StepExecutionError (StepExecutionError name message details) = True"
| "is_StepExecutionError _ = False"

text \<open>\<^verbatim>\<open>current_data.update(output)\<close>: each key of \<open>output\<close>, in order, is set in the dict.\<close>

definition dict_update :: "json_dict \<Rightarrow> json_dict \<Rightarrow> json_dict" where
  "dict_update current output = fold (\<lambda>(k, v). AList.update k v) output current"

text \<open>
  The \<^verbatim>\<open>for step in steps\<close> loop of \<^verbatim>\<open>execute\<close>, with its inner \<^verbatim>\<open>try\<close>. An exception
  raised by \<^verbatim>\<open>_handle_step_failure\<close> inside the \<^verbatim>\<open>except\<close> block replaces the
  \<^verbatim>\<open>StepExecutionError\<close>; otherwise that error is raised again.
\<close>

fun run_steps ::
  "Config \<Rightarrow> TaskHandlerRegistry \<Rightarrow> world \<Rightarrow> uuid \<Rightarrow> WorkflowStep list \<Rightarrow> json_dict \<Rightarrow>
   json_dict \<Rightarrow> (error + json_dict \<times> json_dict) \<times> world" where
  "run_steps config registry w execution_id [] step_outputs current_data =
     (Inr (step_outputs, current_data), w)"
| "run_steps config registry w execution_id (step # rest) step_outputs current_data =
     (case execute_step config registry w execution_id step current_data of
        (Inr output, w1) \<Rightarrow>
          (let step_outputs' =
                 AList.update (step_name step) (json_of_dict_option output) step_outputs;
               current_data' =
                 (case output of
                    Some (x # xs) \<Rightarrow> dict_update current_data (x # xs)
                  | _ \<Rightarrow> current_data);
               w2 = update_execution_status w1 execution_id RUNNING None
                      (Some (step_order step + 1))
           in run_steps config registry w2 execution_id rest step_outputs' current_data')
      | (Inl err, w1) \<Rightarrow>
          (if is_StepExecutionError err
           then (case handle_step_failure w1 execution_id step err of
                   (Inl err', w2) \<Rightarrow> (Inl err', w2)
                 | (Inr _, w2) \<Rightarrow> (Inl err, w2))
           else (Inl err, w1)))"






fun effect_step :: "effect \<Rightarrow> uuid list" where
  "effect_step (HandlerExecute sid attempt) = [sid]"
| "effect_step (Sleep delay) = []"

definition executed_steps :: "effect list \<Rightarrow> uuid list" where
  "executed_steps xs = concat (map effect_step xs)"



definition stored_step_order :: "world \<Rightarrow> uuid \<Rightarrow> int option" where
  "stored_step_order w execution_id =
     map_option ex_current_step_order (get_execution_by_id w execution_id)"

section \<open>Notions used in the proofs about the orchestrator\<close>

text \<open>
  \<open>tracked sx w\<close>: the last step-execution row of \<open>w\<close> has the id \<open>sx\<close> (the row
  a step execution has just created). \<open>frame w w'\<close>: \<open>w'\<close> has the definitions, the
  executions, the clock and the row keys of \<open>w\<close>. \<open>step_frame eid step w w'\<close>: the
  same, with one row for the step appended. \<open>quiet w w'\<close>: \<open>w'\<close> has the step
  executions, the effects, the definitions and the stored progress of every execution of
  \<open>w\<close>.
\<close>

definition tracked :: "uuid \<Rightarrow> world \<Rightarrow> bool" where
  "tracked sx w = (step_executions w \<noteq> [] \<and> se_id (last (step_executions w)) = sx)"

definition frame :: "world \<Rightarrow> world \<Rightarrow> bool" where
  "frame w w' =
     (workflows w' = workflows w \<and> workflow_steps w' = workflow_steps w \<and>
      workflow_executions w' = workflow_executions w \<and> clock w' = clock w \<and>
      map se_key (step_executions w') = map se_key (step_executions w))"


definition quiet :: "world \<Rightarrow> world \<Rightarrow> bool" where
  "quiet w w' =
     (step_executions w' = step_executions w \<and> effects w' = effects w \<and>
      workflows w' = workflows w \<and> workflow_steps w' = workflow_steps w \<and>
      (\<forall>eid. stored_step_order w' eid = stored_step_order w eid))"

section \<open>Task queue (src/worker/queue.py)\<close>

text \<open>
  The Redis structures of one queue \<open>Q\<close>: the lists \<open>Q\<close> (\<open>ready\<close>),
  \<open>Q:processing\<close> and \<open>Q:dlq\<close>, with index 0 the head, where \<^verbatim>\<open>lpush\<close> inserts; the
  sorted set \<open>Q:delayed\<close> as an association list from member to score; the string keys
  \<open>Q:idempotency:<key>\<close>, each with its time to live in seconds (\<open>None\<close> while no
  expiry is set); and the ids whose visibility key \<open>Q:processing:<id>\<close> exists. Redis
  removes a key when its time to live has passed: that is a step of the environment,
  between calls. The list elements are the JSON texts of messages; \<^verbatim>\<open>to_json\<close> and
  \<^verbatim>\<open>from_json\<close> are inverse on the fields of a message, and the model keeps the message
  itself. \<^verbatim>\<open>uuid4()\<close> draws from a counter and each \<^verbatim>\<open>time.time()\<close> reads the next value
  of a clock.
\<close>

record QueueMessage =
  msg_id :: uuid
  msg_execution_id :: uuid
  msg_task_type :: string
  msg_payload :: json_dict
  msg_created_at :: real
  msg_attempt :: int
  msg_visibility_timeout :: int

record queue =
  ready :: "QueueMessage list"
  processing :: "QueueMessage list"
  dlq :: "QueueMessage list"
  delayed :: "(QueueMessage \<times> real) list"
  idempotency_keys :: "(string \<times> int option) list"
  processing_keys :: "uuid list"
  q_next_uuid :: uuid
  q_clock :: "nat \<Rightarrow> real"
  q_ticks :: nat

definition q_uuid4 :: "queue \<Rightarrow> uuid \<times> queue" where
  "q_uuid4 q = (q_next_uuid q, q\<lparr>q_next_uuid := Suc (q_next_uuid q)\<rparr>)"

definition time_time :: "queue \<Rightarrow> real \<times> queue" where
  "time_time q = (q_clock q (q_ticks q), q\<lparr>q_ticks := Suc (q_ticks q)\<rparr>)"

text \<open>\<^verbatim>\<open>SETNX key "1"\<close> and \<^verbatim>\<open>EXPIRE key seconds\<close> on the idempotency keys.\<close>

definition setnx :: "queue \<Rightarrow> string \<Rightarrow> bool \<times> queue" where
  "setnx q key =
     (if key \<in> fst ` set (idempotency_keys q) then (False, q)
      else (True, q\<lparr>idempotency_keys := idempotency_keys q @ [(key, None)]\<rparr>))"

definition expire :: "queue \<Rightarrow> string \<Rightarrow> int \<Rightarrow> queue" where
  "expire q key seconds =
     q\<lparr>idempotency_keys :=
         map (\<lambda>(k, ttl). if k = key then (k, Some seconds) else (k, ttl)) (idempotency_keys q)\<rparr>"

definition QueueMessage_create ::
  "queue \<Rightarrow> uuid \<Rightarrow> string \<Rightarrow> json_dict option \<Rightarrow> int \<Rightarrow> QueueMessage \<times> queue" where
  "QueueMessage_create q execution_id task_type payload visibility_timeout =
     (let (new_id, q1) = q_uuid4 q;
          (now, q2) = time_time q1
      in (\<lparr>msg_id = new_id, msg_execution_id = execution_id, msg_task_type = task_type,
           msg_payload = (case payload of None \<Rightarrow> [] | Some p \<Rightarrow> p),
           msg_created_at = now, msg_attempt = 1,
           msg_visibility_timeout = visibility_timeout\<rparr>, q2))"

text \<open>
  \<^verbatim>\<open>if idempotency_key:\<close> holds for a key that is neither \<^verbatim>\<open>None\<close> nor the empty
  string. \<^verbatim>\<open>zadd\<close> sets the score of the member, adding the member when it is new.
\<close>

definition enqueue ::
  "Config \<Rightarrow> queue \<Rightarrow> uuid \<Rightarrow> string \<Rightarrow> json_dict option \<Rightarrow> string option \<Rightarrow> int \<Rightarrow>
   QueueMessage option \<times> queue" where
  "enqueue config q execution_id task_type payload idempotency_key delay_seconds =
     (case (case idempotency_key of
              Some (c # cs) \<Rightarrow>
                (case setnx q (c # cs) of
                   (False, q1) \<Rightarrow> None
                 | (True, q1) \<Rightarrow> Some (expire q1 (c # cs) 86400))
            | _ \<Rightarrow> Some q) of
        None \<Rightarrow> (None, q)
      | Some q2 \<Rightarrow>
          (let (message, q3) =
                 QueueMessage_create q2 execution_id task_type payload
                   (QUEUE_PROCESSING_TIMEOUT config)
           in if delay_seconds > 0
              then (let (now, q4) = time_time q3;
                        score = now + real_of_int delay_seconds
                    in (Some message,
                        q4\<lparr>delayed := AList.update message score (delayed q4)\<rparr>))
              else (Some message, q3\<lparr>ready := message # ready q3\<rparr>)))"

text \<open>
  The message a call of \<open>enqueue\<close> on the queue \<open>q\<close> constructs: a fresh id, the
  first clock reading as creation time, attempt 1 and the configured visibility timeout.
\<close>

definition new_message ::
  "Config \<Rightarrow> queue \<Rightarrow> uuid \<Rightarrow> string \<Rightarrow> json_dict option \<Rightarrow> QueueMessage" where
  "new_message config q execution_id task_type payload =
     \<lparr>msg_id = q_next_uuid q, msg_execution_id = execution_id, msg_task_type = task_type,
      msg_payload = (case payload of None \<Rightarrow> [] | Some p \<Rightarrow> p),
      msg_created_at = q_clock q (q_ticks q), msg_attempt = 1,
      msg_visibility_timeout = QUEUE_PROCESSING_TIMEOUT config\<rparr>"

text \<open>
  \<^verbatim>\<open>recover_stale_messages\<close>: the \<^verbatim>\<open>for\<close> loop over the snapshot
  \<^verbatim>\<open>lrange(processing, 0, -1)\<close>. \<^verbatim>\<open>lrem(processing, 1, msg_json)\<close> removes the first
  element equal to the text, from the head.
\<close>

fun recover_loop :: "QueueMessage list \<Rightarrow> queue \<Rightarrow> nat \<Rightarrow> nat \<times> queue" where
  "recover_loop [] q recovered = (recovered, q)"
| "recover_loop (msg_json # rest) q recovered =
     (if msg_id msg_json \<notin> set (processing_keys q) then
        (let q1 = q\<lparr>processing := remove1 msg_json (processing q)\<rparr>;
             message = msg_json\<lparr>msg_attempt := msg_attempt msg_json + 1\<rparr>
         in if msg_attempt message \<le> 3
            then recover_loop rest (q1\<lparr>ready := message # ready q1\<rparr>) (recovered + 1)
            else (let message' = message\<lparr>msg_payload :=
                        AList.update ''dlq_reason'' (JStr (Lit ''max_attempts_exceeded''))
                          (msg_payload message)\<rparr>
                  in recover_loop rest (q1\<lparr>dlq := message' # dlq q1\<rparr>) (recovered + 1)))
      else recover_loop rest q recovered)"

definition recover_stale_messages :: "queue \<Rightarrow> nat \<times> queue" where
  "recover_stale_messages q = recover_loop (processing q) q 0"

text \<open>
  How the result of a recovery sweep is described: a message is stale when its visibility
  key is missing; a recovered message has its attempt incremented; a dead-lettered one
  carries the reason in its payload.
\<close>

definition stale :: "queue \<Rightarrow> QueueMessage \<Rightarrow> bool" where
  "stale q m = (msg_id m \<notin> set (processing_keys q))"

definition next_attempt :: "QueueMessage \<Rightarrow> QueueMessage" where
  "next_attempt m = m\<lparr>msg_attempt := msg_attempt m + 1\<rparr>"

definition dead_letter :: "QueueMessage \<Rightarrow> QueueMessage" where
  "dead_letter m =
     m\<lparr>msg_payload :=
         AList.update ''dlq_reason'' (JStr (Lit ''max_attempts_exceeded'')) (msg_payload m)\<rparr>"

section \<open>Scenario data\<close>


definition scenario_workflow :: Workflow where
  "scenario_workflow =
     \<lparr>wf_id = 1, wf_name = ''W'', wf_description = [], wf_status = ACTIVE, wf_version = 1,
      wf_steps = [], wf_metadata = [], wf_created_at = 0, wf_updated_at = 0\<rparr>"

definition scenario_execution :: "ExecutionStatus \<Rightarrow> int \<Rightarrow> WorkflowExecution" where
  "scenario_execution status current =
     \<lparr>ex_id = 2, ex_workflow_id = 1, ex_idempotency_key = ''k1'', ex_status = status,
      ex_current_step_order = current, ex_retry_count = 0, ex_max_retries = 3,
      ex_input_data = [], ex_output_data = None, ex_error_message = None,
      ex_scheduled_at = None, ex_started_at = None, ex_completed_at = None,
      ex_created_at = 0, ex_updated_at = 0\<rparr>"

definition scenario_world :: "WorkflowStep list \<Rightarrow> WorkflowExecution list \<Rightarrow> world" where
  "scenario_world steps executions =
     \<lparr>workflows = [scenario_workflow], workflow_steps = steps,
      workflow_executions = executions, step_executions = [], execution_logs = [],
      next_uuid = 1000, clock = 7, effects = []\<rparr>"




text \<open>A queue in which the idempotency key K has been used and one message is in flight.\<close>

definition scenario_message :: "uuid \<Rightarrow> int \<Rightarrow> QueueMessage" where
  "scenario_message mid attempt =
     \<lparr>msg_id = mid, msg_execution_id = 2, msg_task_type = ''execute_workflow'',
      msg_payload = [], msg_created_at = 50, msg_attempt = attempt,
      msg_visibility_timeout = 30\<rparr>"

definition scenario_queue :: queue where
  "scenario_queue =
     \<lparr>ready = [], processing = [], dlq = [], delayed = [],
      idempotency_keys = [(''K'', Some 86400)], processing_keys = [],
      q_next_uuid = 500, q_clock = (\<lambda>n. 100 + real n), q_ticks = 0\<rparr>"

section \<open>Properties of the state machine\<close>

text \<open>
  Claim C3. For every pair of execution states (a, b), \<open>can_transition a b\<close> is true
  exactly when (a, b) is in the table of section 4.1, and \<open>validate_transition a b\<close>
  raises \<open>InvalidTransitionError\<close> exactly on the other pairs and returns normally on
  the legal ones.
\<close>

theorem can_transition_iff_spec_table:
  "can_transition a b = ((a, b) \<in> set spec_table) \<and>
   validate_transition a b =
     (if (a, b) \<in> set spec_table then Inr () else Inl (InvalidTransitionError a b))"
  by (cases a; cases b; simp add: can_transition_def validate_transition_def spec_table_def)

theorem can_transition_iff_spec_table_witness:
  "can_transition FAILED CANCELLED \<and> \<not> can_transition COMPLETED RUNNING \<and>
   validate_transition FAILED CANCELLED = Inr () \<and>
   validate_transition COMPLETED RUNNING = Inl (InvalidTransitionError COMPLETED RUNNING)"
  using can_transition_iff_spec_table [of FAILED CANCELLED]
    can_transition_iff_spec_table [of COMPLETED RUNNING]
  by (simp add: spec_table_def)

subsection \<open>The breadth-first search\<close>

lemma perm2:
  assumes "distinct xs" "set xs = {a, b}" "a \<noteq> b"
  shows "xs = [a, b] \<or> xs = [b, a]"
proof -
  have "length xs = 2" using assms distinct_card [of xs] by simp
  then obtain x y where "xs = [x, y]"
    by (auto simp: numeral_2_eq_2 length_Suc_conv)
  with assms show ?thesis by (auto simp: doubleton_eq_iff)
qed

lemma perm3:
  assumes "distinct xs" "set xs = {a, b, c}" "a \<noteq> b" "a \<noteq> c" "b \<noteq> c"
  shows "xs = [a, b, c] \<or> xs = [a, c, b] \<or> xs = [b, a, c] \<or>
         xs = [b, c, a] \<or> xs = [c, a, b] \<or> xs = [c, b, a]"
proof -
  have "length xs = 3" using assms distinct_card [of xs] by simp
  then obtain x y z where xs: "xs = [x, y, z]"
    by (auto simp: numeral_3_eq_3 length_Suc_conv)
  have "x \<in> {a, b, c}" "y \<in> {a, b, c}" "z \<in> {a, b, c}"
    using assms(2) xs by auto
  moreover have "x \<noteq> y" "x \<noteq> z" "y \<noteq> z" using assms(1) xs by auto
  ultimately show ?thesis unfolding xs by auto
qed

lemma order_PENDING:
  "iteration_order order \<Longrightarrow>
   order PENDING = [RUNNING, CANCELLED] \<or> order PENDING = [CANCELLED, RUNNING]"
  by (rule perm2) (simp_all add: iteration_order_def all_states_def)

lemma order_FAILED:
  "iteration_order order \<Longrightarrow>
   order FAILED = [RETRYING, CANCELLED] \<or> order FAILED = [CANCELLED, RETRYING]"
  by (rule perm2) (simp_all add: iteration_order_def all_states_def)

lemma order_RUNNING:
  "iteration_order order \<Longrightarrow>
   order RUNNING = [COMPLETED, FAILED, CANCELLED] \<or> order RUNNING = [COMPLETED, CANCELLED, FAILED] \<or>
   order RUNNING = [FAILED, COMPLETED, CANCELLED] \<or> order RUNNING = [FAILED, CANCELLED, COMPLETED] \<or>
   order RUNNING = [CANCELLED, COMPLETED, FAILED] \<or> order RUNNING = [CANCELLED, FAILED, COMPLETED]"
  by (rule perm3) (simp_all add: iteration_order_def all_states_def)

lemma order_RETRYING:
  "iteration_order order \<Longrightarrow>
   order RETRYING = [RUNNING, FAILED, CANCELLED] \<or> order RETRYING = [RUNNING, CANCELLED, FAILED] \<or>
   order RETRYING = [FAILED, RUNNING, CANCELLED] \<or> order RETRYING = [FAILED, CANCELLED, RUNNING] \<or>
   order RETRYING = [CANCELLED, RUNNING, FAILED] \<or> order RETRYING = [CANCELLED, FAILED, RUNNING]"
  by (rule perm3) (simp_all add: iteration_order_def all_states_def)

lemma order_COMPLETED: "iteration_order order \<Longrightarrow> order COMPLETED = []"
  by (simp add: iteration_order_def all_states_def)

lemma order_CANCELLED: "iteration_order order \<Longrightarrow> order CANCELLED = []"
  by (simp add: iteration_order_def all_states_def)

lemma bfs_PENDING:
  assumes "iteration_order order"
  shows "get_transition_path order PENDING b = route PENDING b"
proof -
  note P = order_PENDING [OF assms] and R = order_RUNNING [OF assms]
    and F = order_FAILED [OF assms] and Co = order_COMPLETED [OF assms]
    and Ca = order_CANCELLED [OF assms]
  show ?thesis
  proof (cases b)
    case PENDING then show ?thesis by (simp add: get_transition_path_def)
  next
    case RUNNING then show ?thesis using P by (auto simp: get_transition_path_def)
  next
    case COMPLETED then show ?thesis using P R Ca by (auto simp: get_transition_path_def)
  next
    case FAILED then show ?thesis using P R Ca by (auto simp: get_transition_path_def)
  next
    case RETRYING then show ?thesis using P R F Co Ca by (auto simp: get_transition_path_def)
  next
    case CANCELLED then show ?thesis using P by (auto simp: get_transition_path_def)
  qed
qed

lemma bfs_RUNNING:
  assumes "iteration_order order"
  shows "get_transition_path order RUNNING b = route RUNNING b"
proof -
  note R = order_RUNNING [OF assms] and T = order_RETRYING [OF assms]
    and F = order_FAILED [OF assms] and Co = order_COMPLETED [OF assms]
    and Ca = order_CANCELLED [OF assms]
  show ?thesis
  proof (cases b)
    case PENDING then show ?thesis using R F T Co Ca by (auto simp: get_transition_path_def)
  next
    case RUNNING then show ?thesis by (simp add: get_transition_path_def)
  next
    case COMPLETED then show ?thesis using R by (auto simp: get_transition_path_def)
  next
    case FAILED then show ?thesis using R by (auto simp: get_transition_path_def)
  next
    case RETRYING then show ?thesis using R F Co Ca by (auto simp: get_transition_path_def)
  next
    case CANCELLED then show ?thesis using R by (auto simp: get_transition_path_def)
  qed
qed

lemma bfs_FAILED:
  assumes "iteration_order order"
  shows "get_transition_path order FAILED b = route FAILED b"
proof -
  note R = order_RUNNING [OF assms] and T = order_RETRYING [OF assms]
    and F = order_FAILED [OF assms] and Co = order_COMPLETED [OF assms]
    and Ca = order_CANCELLED [OF assms]
  show ?thesis
  proof (cases b)
    case PENDING then show ?thesis using R F T Co Ca by (auto simp: get_transition_path_def)
  next
    case RUNNING then show ?thesis using F T Ca by (auto simp: get_transition_path_def)
  next
    case COMPLETED then show ?thesis using F T R Ca by (auto simp: get_transition_path_def)
  next
    case FAILED then show ?thesis by (simp add: get_transition_path_def)
  next
    case RETRYING then show ?thesis using F by (auto simp: get_transition_path_def)
  next
    case CANCELLED then show ?thesis using F by (auto simp: get_transition_path_def)
  qed
qed

lemma bfs_RETRYING:
  assumes "iteration_order order"
  shows "get_transition_path order RETRYING b = route RETRYING b"
proof -
  note R = order_RUNNING [OF assms] and T = order_RETRYING [OF assms]
    and F = order_FAILED [OF assms] and Co = order_COMPLETED [OF assms]
    and Ca = order_CANCELLED [OF assms]
  show ?thesis
  proof (cases b)
    case PENDING then show ?thesis using R F T Co Ca by (auto simp: get_transition_path_def)
  next
    case RUNNING then show ?thesis using T by (auto simp: get_transition_path_def)
  next
    case COMPLETED then show ?thesis using T R F Ca by (auto simp: get_transition_path_def)
  next
    case FAILED then show ?thesis using T by (auto simp: get_transition_path_def)
  next
    case RETRYING then show ?thesis by (simp add: get_transition_path_def)
  next
    case CANCELLED then show ?thesis using T by (auto simp: get_transition_path_def)
  qed
qed

lemma bfs_route:
  assumes "iteration_order order"
  shows "get_transition_path order a b = route a b"
proof (cases a)
  case PENDING then show ?thesis using bfs_PENDING [OF assms] by simp
next
  case RUNNING then show ?thesis using bfs_RUNNING [OF assms] by simp
next
  case COMPLETED then show ?thesis
    using order_COMPLETED [OF assms] by (simp add: get_transition_path_def)
next
  case FAILED then show ?thesis using bfs_FAILED [OF assms] by simp
next
  case RETRYING then show ?thesis using bfs_RETRYING [OF assms] by simp
next
  case CANCELLED then show ?thesis
    using order_CANCELLED [OF assms] by (simp add: get_transition_path_def)
qed

lemma route_legal:
  "route a b = Some p \<Longrightarrow> legal_path p \<and> hd p = a \<and> last p = b"
  by (cases a; cases b) (auto simp: can_transition_def split: if_splits)

lemma route_step:
  "can_transition s t \<Longrightarrow> route t b = Some p' \<Longrightarrow>
   \<exists>p. route s b = Some p \<and> length p \<le> Suc (length p')"
  by (cases s; cases t; cases b) (auto simp: can_transition_def split: if_splits)

lemma route_self: "\<exists>p. route s s = Some p \<and> length p \<le> Suc 0"
  by (cases s) auto

lemma route_minimal:
  "legal_path q \<Longrightarrow> \<exists>p. route (hd q) (last q) = Some p \<and> length p \<le> length q"
proof (induction q rule: legal_path.induct)
  case 1
  then show ?case by simp
next
  case (2 s)
  then show ?case using route_self [of s] by simp
next
  case (3 s t rest)
  then obtain p' where p': "route t (last (t # rest)) = Some p'" "length p' \<le> length (t # rest)"
    by auto
  from 3 have "can_transition s t" by simp
  from route_step [OF this p'(1)] obtain p where
    "route s (last (t # rest)) = Some p" "length p \<le> Suc (length p')" by blast
  with p'(2) show ?case by auto
qed


text \<open>
  Claim C9. For every pair of execution states (a, b) and every iteration order of the
  transition sets: \<open>get_transition_path\<close> returns \<open>None\<close> exactly when b is
  unreachable from a via legal transitions; it returns the singleton [a] when a = b; and
  every path it returns starts at a, ends at b, has only legal single-step transitions
  between consecutive states, and is no longer than any other such path.
\<close>

theorem get_transition_path_shortest:
  assumes "iteration_order order"
  shows "(get_transition_path order a b = None) = (\<not> reachable a b) \<and>
    (a = b \<longrightarrow> get_transition_path order a b = Some [a]) \<and>
    (\<forall>p. get_transition_path order a b = Some p \<longrightarrow>
       legal_path p \<and> hd p = a \<and> last p = b \<and>
       (\<forall>q. legal_path q \<and> hd q = a \<and> last q = b \<longrightarrow> length p \<le> length q))"
proof -
  have eq: "get_transition_path order a b = route a b" by (rule bfs_route [OF assms])
  have none: "(route a b = None) = (\<not> reachable a b)"
  proof
    assume n: "route a b = None"
    show "\<not> reachable a b"
    proof
      assume "reachable a b"
      then obtain q where "legal_path q" "hd q = a" "last q = b"
        by (auto simp: reachable_def)
      with route_minimal [of q] n show False by simp
    qed
  next
    assume nr: "\<not> reachable a b"
    show "route a b = None"
    proof (cases "route a b")
      case None then show ?thesis .
    next
      case (Some p)
      from route_legal [OF this] nr show ?thesis by (auto simp: reachable_def)
    qed
  qed
  have same: "a = b \<longrightarrow> get_transition_path order a b = Some [a]"
    by (simp add: get_transition_path_def)
  have short: "\<forall>p. route a b = Some p \<longrightarrow>
       legal_path p \<and> hd p = a \<and> last p = b \<and>
       (\<forall>q. legal_path q \<and> hd q = a \<and> last q = b \<longrightarrow> length p \<le> length q)"
  proof (intro allI impI conjI)
    fix p assume p: "route a b = Some p"
    from route_legal [OF p] show "legal_path p" "hd p = a" "last p = b" by simp_all
    fix q assume "legal_path q \<and> hd q = a \<and> last q = b"
    with route_minimal [of q] p show "length p \<le> length q" by auto
  qed
  from none same short show ?thesis unfolding eq by blast
qed

lemma iteration_order_TRANSITIONS: "iteration_order TRANSITIONS"
  by (simp add: iteration_order_def all_states_def)

theorem get_transition_path_shortest_witness:
  "iteration_order TRANSITIONS \<and>
   get_transition_path TRANSITIONS FAILED COMPLETED = Some [FAILED, RETRYING, RUNNING, COMPLETED] \<and>
   legal_path [FAILED, RETRYING, RUNNING, COMPLETED] \<and>
   get_transition_path TRANSITIONS COMPLETED RUNNING = None \<and>
   \<not> reachable COMPLETED RUNNING \<and>
   get_transition_path TRANSITIONS RUNNING RUNNING = Some [RUNNING]"
proof -
  have 1: "get_transition_path TRANSITIONS FAILED COMPLETED = Some [FAILED, RETRYING, RUNNING, COMPLETED]"
    by (simp add: get_transition_path_def)
  have 2: "get_transition_path TRANSITIONS COMPLETED RUNNING = None"
    by (simp add: get_transition_path_def)
  from get_transition_path_shortest [OF iteration_order_TRANSITIONS, of FAILED COMPLETED] 1
  have 3: "legal_path [FAILED, RETRYING, RUNNING, COMPLETED]" by simp
  from get_transition_path_shortest [OF iteration_order_TRANSITIONS, of COMPLETED RUNNING] 2
  have 4: "\<not> reachable COMPLETED RUNNING" by simp
  from get_transition_path_shortest [OF iteration_order_TRANSITIONS, of RUNNING RUNNING]
  have 5: "get_transition_path TRANSITIONS RUNNING RUNNING = Some [RUNNING]" by simp
  from iteration_order_TRANSITIONS 1 2 3 4 5 show ?thesis by simp
qed


section \<open>Properties of the execution service\<close>

lemma find_map_preserved:
  "(\<And>x. P (f x) = P x) \<Longrightarrow> find P (map f xs) = map_option f (find P xs)"
  by (induction xs) auto


lemma log_entry_fields [simp]:
  "workflows (log_entry w eid lvl m sx d) = workflows w"
  "workflow_steps (log_entry w eid lvl m sx d) = workflow_steps w"
  "workflow_executions (log_entry w eid lvl m sx d) = workflow_executions w"
  "step_executions (log_entry w eid lvl m sx d) = step_executions w"
  "clock (log_entry w eid lvl m sx d) = clock w"
  "effects (log_entry w eid lvl m sx d) = effects w"
  "next_uuid (log_entry w eid lvl m sx d) = Suc (next_uuid w)"
  by (simp_all add: log_entry_def uuid4_def create_log_def)

lemma update_execution_status_fields [simp]:
  "workflows (update_execution_status w eid st em cso) = workflows w"
  "workflow_steps (update_execution_status w eid st em cso) = workflow_steps w"
  "step_executions (update_execution_status w eid st em cso) = step_executions w"
  "execution_logs (update_execution_status w eid st em cso) = execution_logs w"
  "clock (update_execution_status w eid st em cso) = clock w"
  "effects (update_execution_status w eid st em cso) = effects w"
  "next_uuid (update_execution_status w eid st em cso) = next_uuid w"
  by (simp_all add: update_execution_status_def)

lemma update_execution_row_keys [simp]:
  "ex_id (update_execution_row now st em cso e) = ex_id e"
  "ex_workflow_id (update_execution_row now st em cso e) = ex_workflow_id e"
  "ex_idempotency_key (update_execution_row now st em cso e) = ex_idempotency_key e"
  "ex_status (update_execution_row now st em cso e) = st"
  by (simp_all add: update_execution_row_def)


lemma get_execution_by_id_log_entry [simp]:
  "get_execution_by_id (log_entry w eid lvl m sx d) eid' = get_execution_by_id w eid'"
  by (simp add: get_execution_by_id_def)

lemma get_execution_by_key_log_entry [simp]:
  "get_execution_by_idempotency_key (log_entry w eid lvl m sx d) W K =
   get_execution_by_idempotency_key w W K"
  by (simp add: get_execution_by_idempotency_key_def)

lemma execution_logs_log_entry:
  "execution_logs (log_entry w eid lvl m sx d) =
   execution_logs w @
     [\<lparr>log_id = next_uuid w, log_execution_id = eid, log_step_execution_id = sx,
       log_level = lvl, log_message = m, log_details = d, log_timestamp = clock w\<rparr>]"
  by (simp add: log_entry_def uuid4_def create_log_def utcnow_def)

lemma get_execution_by_id_update:
  "get_execution_by_id (update_execution_status w eid st em cso) eid' =
   map_option (\<lambda>e. if ex_id e = eid then update_execution_row (utcnow w) st em cso e else e)
     (get_execution_by_id w eid')"
  unfolding get_execution_by_id_def update_execution_status_def
  by (simp add: find_map_preserved)


text \<open>
  Claim C10. \<open>transition_status\<close> is atomic on error: for every existing execution and
  every requested status that the state machine forbids from the execution's current
  status, it raises \<open>ExecutionStateError\<close> and returns the world it was given: the
  execution row is unchanged and no audit log entry is appended.
\<close>

theorem transition_status_atomic_on_error:
  assumes "get_execution_by_id w execution_id = Some execution"
    and "\<not> can_transition (ex_status execution) new_status"
  shows "transition_status w execution_id new_status error_message current_step_order =
     (Inl (ExecutionStateError (InvalidTransition (ex_status execution) new_status)), w)"
  using assms
  by (simp add: transition_status_def get_execution_def validate_transition_def)

theorem transition_status_atomic_on_error_witness:
  "get_execution_by_id (scenario_world [] [scenario_execution COMPLETED 1]) 2 =
     Some (scenario_execution COMPLETED 1) \<and>
   \<not> can_transition COMPLETED RUNNING \<and>
   transition_status (scenario_world [] [scenario_execution COMPLETED 1]) 2 RUNNING None None =
     (Inl (ExecutionStateError (InvalidTransition COMPLETED RUNNING)),
      scenario_world [] [scenario_execution COMPLETED 1])"
proof -
  have 1: "get_execution_by_id (scenario_world [] [scenario_execution COMPLETED 1]) 2 =
     Some (scenario_execution COMPLETED 1)"
    by (simp add: get_execution_by_id_def scenario_world_def scenario_execution_def)
  have 2: "\<not> can_transition (ex_status (scenario_execution COMPLETED 1)) RUNNING"
    by (simp add: can_transition_def scenario_execution_def)
  from transition_status_atomic_on_error [OF 1 2, of None None] 1 2
  show ?thesis by (simp add: scenario_execution_def)
qed

lemma transition_status_legal:
  assumes "get_execution_by_id w execution_id = Some execution"
    and "can_transition (ex_status execution) new_status"
  shows "\<exists>w'. transition_status w execution_id new_status None None =
           (Inr (execution\<lparr>ex_status := new_status\<rparr>), w') \<and>
         map_option ex_status (get_execution_by_id w' execution_id) = Some new_status \<and>
         length (execution_logs w') = Suc (length (execution_logs w))"
proof -
  from assms(1) have "ex_id execution = execution_id"
    by (auto simp: get_execution_by_id_def dest: find_Some_iff [THEN iffD1])
  then show ?thesis
    using assms
    by (simp add: transition_status_def get_execution_def validate_transition_def Let_def
        get_execution_by_id_update execution_logs_log_entry)
qed


text \<open>
  Claim C2, as amended. \<open>cancel_execution\<close> refuses an execution whose status is failed,
  as it does for completed and cancelled: the entity's \<open>is_terminal\<close> counts failed as
  terminal, so the call raises \<open>ExecutionStateError\<close> and leaves the world unchanged,
  although failed to cancelled is a legal transition of the state machine. On an execution
  that is pending, running or retrying it transitions the execution to cancelled.
\<close>

theorem cancel_execution_refuses_failed:
  assumes "get_execution_by_id w execution_id = Some execution"
  shows "(ex_status execution \<in> {COMPLETED, FAILED, CANCELLED} \<longrightarrow>
            cancel_execution w execution_id =
              (Inl (ExecutionStateError (CannotCancelTerminal (ex_status execution))), w)) \<and>
         (ex_status execution \<in> {PENDING, RUNNING, RETRYING} \<longrightarrow>
            (\<exists>w'. cancel_execution w execution_id =
                     (Inr (execution\<lparr>ex_status := CANCELLED\<rparr>), w') \<and>
                   map_option ex_status (get_execution_by_id w' execution_id) = Some CANCELLED))"
proof (intro conjI impI)
  assume "ex_status execution \<in> {COMPLETED, FAILED, CANCELLED}"
  then show "cancel_execution w execution_id =
      (Inl (ExecutionStateError (CannotCancelTerminal (ex_status execution))), w)"
    using assms by (auto simp: cancel_execution_def get_execution_def is_terminal_def)
next
  assume st: "ex_status execution \<in> {PENDING, RUNNING, RETRYING}"
  then have nt: "\<not> is_terminal execution" and ct: "can_transition (ex_status execution) CANCELLED"
    by (auto simp: is_terminal_def can_transition_def)
  from transition_status_legal [OF assms ct] obtain w' where
    "transition_status w execution_id CANCELLED None None =
       (Inr (execution\<lparr>ex_status := CANCELLED\<rparr>), w')"
    "map_option ex_status (get_execution_by_id w' execution_id) = Some CANCELLED"
    by blast
  then show "\<exists>w'. cancel_execution w execution_id =
                     (Inr (execution\<lparr>ex_status := CANCELLED\<rparr>), w') \<and>
                   map_option ex_status (get_execution_by_id w' execution_id) = Some CANCELLED"
    using assms nt by (auto simp: cancel_execution_def get_execution_def)
qed

theorem cancel_execution_refuses_failed_witness:
  "cancel_execution (scenario_world [] [scenario_execution FAILED 0]) 2 =
     (Inl (ExecutionStateError (CannotCancelTerminal FAILED)),
      scenario_world [] [scenario_execution FAILED 0]) \<and>
   (\<exists>w'. cancel_execution (scenario_world [] [scenario_execution RUNNING 0]) 2 =
           (Inr (scenario_execution CANCELLED 0), w') \<and>
         map_option ex_status (get_execution_by_id w' 2) = Some CANCELLED)"
proof -
  have 1: "get_execution_by_id (scenario_world [] [scenario_execution FAILED 0]) 2 =
     Some (scenario_execution FAILED 0)"
    by (simp add: get_execution_by_id_def scenario_world_def scenario_execution_def)
  have 2: "get_execution_by_id (scenario_world [] [scenario_execution RUNNING 0]) 2 =
     Some (scenario_execution RUNNING 0)"
    by (simp add: get_execution_by_id_def scenario_world_def scenario_execution_def)
  have 3: "(scenario_execution RUNNING 0)\<lparr>ex_status := CANCELLED\<rparr> = scenario_execution CANCELLED 0"
    by (simp add: scenario_execution_def)
  from cancel_execution_refuses_failed [OF 1] cancel_execution_refuses_failed [OF 2] 3
  show ?thesis by (simp add: scenario_execution_def)
qed

text \<open>
  The claim as stated (cancelling a failed execution succeeds) fails on the code: here the
  failed execution 2 is refused, and the world is returned as it was.
\<close>

theorem cancel_execution_failed_counterexample:
  "can_transition FAILED CANCELLED \<and>
   cancel_execution (scenario_world [] [scenario_execution FAILED 0]) 2 =
     (Inl (ExecutionStateError (CannotCancelTerminal FAILED)),
      scenario_world [] [scenario_execution FAILED 0])"
  by (simp add: can_transition_def cancel_execution_def get_execution_def get_execution_by_id_def
      is_terminal_def scenario_world_def scenario_execution_def)






section \<open>Properties of the orchestrator\<close>

subsection \<open>What each store operation leaves alone\<close>

lemma record_effect_fields [simp]:
  "workflows (record_effect w x) = workflows w"
  "workflow_steps (record_effect w x) = workflow_steps w"
  "workflow_executions (record_effect w x) = workflow_executions w"
  "step_executions (record_effect w x) = step_executions w"
  "execution_logs (record_effect w x) = execution_logs w"
  "next_uuid (record_effect w x) = next_uuid w"
  "clock (record_effect w x) = clock w"
  "effects (record_effect w x) = effects w @ [x]"
  by (simp_all add: record_effect_def)

lemma update_step_execution_fields [simp]:
  "workflows (update_step_execution w sx st od em ed) = workflows w"
  "workflow_steps (update_step_execution w sx st od em ed) = workflow_steps w"
  "workflow_executions (update_step_execution w sx st od em ed) = workflow_executions w"
  "execution_logs (update_step_execution w sx st od em ed) = execution_logs w"
  "next_uuid (update_step_execution w sx st od em ed) = next_uuid w"
  "clock (update_step_execution w sx st od em ed) = clock w"
  "effects (update_step_execution w sx st od em ed) = effects w"
  by (simp_all add: update_step_execution_def)

lemma se_key_update_row [simp]:
  "se_key (update_step_execution_row now st od em ed r) = se_key r"
  by (simp add: se_key_def update_step_execution_row_def)

lemma se_status_update_row [simp]:
  "se_status (update_step_execution_row now st od em ed r) = st"
  by (simp add: update_step_execution_row_def)

lemma se_id_update_row [simp]:
  "se_id (update_step_execution_row now st od em ed r) = se_id r"
  by (simp add: update_step_execution_row_def)

lemma update_step_execution_keys [simp]:
  "map se_key (step_executions (update_step_execution w sx st od em ed)) =
   map se_key (step_executions w)"
  by (simp add: update_step_execution_def comp_def)

lemma update_step_execution_empty [simp]:
  "(step_executions (update_step_execution w sx st od em ed) = []) = (step_executions w = [])"
  by (simp add: update_step_execution_def)

lemma update_step_execution_last_id [simp]:
  "step_executions w \<noteq> [] \<Longrightarrow>
   se_id (last (step_executions (update_step_execution w sx st od em ed))) =
   se_id (last (step_executions w))"
  by (simp add: update_step_execution_def last_map)


lemma frame_refl [simp]: "frame w w"
  by (simp add: frame_def)


lemma tracked_frame: "tracked sx w \<Longrightarrow> frame w w' \<Longrightarrow>
  se_id (last (step_executions w')) = se_id (last (step_executions w)) \<Longrightarrow> tracked sx w'"
  unfolding tracked_def frame_def
  by (metis map_is_Nil_conv)

subsection \<open>One attempt of the retry loop\<close>

declare execute_step_attempts.simps [simp del]




subsection \<open>The retry loop\<close>





lemma executed_steps_append [simp]:
  "executed_steps (xs @ ys) = executed_steps xs @ executed_steps ys"
  by (simp add: executed_steps_def)


subsection \<open>One step execution\<close>













subsection \<open>Service calls that leave the progress of an execution alone\<close>

lemma quiet_refl [simp]: "quiet w w"
  by (simp add: quiet_def)


lemma stored_step_order_log_entry [simp]:
  "stored_step_order (log_entry w eid lvl m sx d) eid' = stored_step_order w eid'"
  by (simp add: stored_step_order_def)




lemma transition_status_returns:
  "transition_status w eid st em None = (Inr e', w') \<Longrightarrow>
   \<exists>e. get_execution_by_id w eid = Some e \<and>
       ex_current_step_order e' = ex_current_step_order e \<and>
       ex_input_data e' = ex_input_data e \<and> ex_workflow_id e' = ex_workflow_id e"
  by (auto simp: transition_status_def get_execution_def Let_def split: sum.splits option.splits)






subsection \<open>The loop over the steps\<close>








lemma run_steps_append:
  "run_steps c reg w eid (xs @ ys) so cd =
   (case run_steps c reg w eid xs so cd of
      (Inr (so', cd'), w1) \<Rightarrow> run_steps c reg w1 eid ys so' cd'
    | (Inl err, w1) \<Rightarrow> (Inl err, w1))"
proof (induction xs arbitrary: w so cd)
  case Nil
  then show ?case by simp
next
  case (Cons step rest)
  show ?case
    by (cases "execute_step c reg w eid step cd")
       (auto simp: Cons.IH Let_def split: sum.splits prod.splits)
qed

subsection \<open>The steps an execution still has to run\<close>




subsection \<open>The whole of execute\<close>










section \<open>Properties of the task queue\<close>

subsection \<open>enqueue\<close>

lemma setnx_present:
  "key \<in> fst ` set (idempotency_keys q) \<Longrightarrow> setnx q key = (False, q)"
  by (simp add: setnx_def)

lemma setnx_absent:
  "key \<notin> fst ` set (idempotency_keys q) \<Longrightarrow>
   setnx q key = (True, q\<lparr>idempotency_keys := idempotency_keys q @ [(key, None)]\<rparr>)"
  by (simp add: setnx_def)

lemma expire_fresh:
  assumes "key \<notin> fst ` set ks"
  shows "map (\<lambda>(k, ttl). if k = key then (k, Some seconds) else (k, ttl)) (ks @ [(key, None)]) =
     ks @ [(key, Some seconds)]"
proof -
  have "map (\<lambda>(k, ttl). if k = key then (k, Some seconds) else (k, ttl)) ks = ks"
    using assms by (induction ks) auto
  then show ?thesis by simp
qed

lemma enqueue_duplicate:
  assumes "key \<noteq> []" and "key \<in> fst ` set (idempotency_keys q)"
  shows "enqueue config q execution_id task_type payload (Some key) delay_seconds = (None, q)"
proof -
  obtain c cs where k: "key = c # cs" using assms(1) by (cases key) auto
  show ?thesis using assms(2) unfolding k by (simp add: enqueue_def setnx_present)
qed

lemma enqueue_fresh:
  assumes "key \<noteq> []" and "key \<notin> fst ` set (idempotency_keys q)"
  shows "enqueue config q execution_id task_type payload (Some key) delay_seconds =
     (Some (new_message config q execution_id task_type payload),
      (if delay_seconds > 0
       then q\<lparr>idempotency_keys := idempotency_keys q @ [(key, Some 86400)],
              q_next_uuid := Suc (q_next_uuid q), q_ticks := Suc (Suc (q_ticks q)),
              delayed := AList.update (new_message config q execution_id task_type payload)
                (q_clock q (Suc (q_ticks q)) + real_of_int delay_seconds) (delayed q)\<rparr>
       else q\<lparr>idempotency_keys := idempotency_keys q @ [(key, Some 86400)],
              q_next_uuid := Suc (q_next_uuid q), q_ticks := Suc (q_ticks q),
              ready := new_message config q execution_id task_type payload # ready q\<rparr>))"
proof -
  obtain c cs where k: "key = c # cs" using assms(1) by (cases key) auto
  show ?thesis
    using assms(2) expire_fresh [OF assms(2), of 86400] unfolding k
    by (simp add: enqueue_def setnx_absent expire_def QueueMessage_create_def q_uuid4_def
        time_time_def new_message_def Let_def)
qed

lemma enqueue_no_key:
  assumes "idempotency_key = None \<or> idempotency_key = Some []"
  shows "enqueue config q execution_id task_type payload idempotency_key delay_seconds =
     (Some (new_message config q execution_id task_type payload),
      (if delay_seconds > 0
       then q\<lparr>q_next_uuid := Suc (q_next_uuid q), q_ticks := Suc (Suc (q_ticks q)),
              delayed := AList.update (new_message config q execution_id task_type payload)
                (q_clock q (Suc (q_ticks q)) + real_of_int delay_seconds) (delayed q)\<rparr>
       else q\<lparr>q_next_uuid := Suc (q_next_uuid q), q_ticks := Suc (q_ticks q),
              ready := new_message config q execution_id task_type payload # ready q\<rparr>))"
  using assms
  by (auto simp: enqueue_def QueueMessage_create_def q_uuid4_def time_time_def new_message_def
      Let_def)

text \<open>
  Claim C6. \<open>enqueue\<close> called with a (non-empty) idempotency key whose existence key is
  already present returns \<open>None\<close> and leaves every queue structure as it is. Called with
  a key whose existence key is absent it sets the key with a time to live of 86400 seconds
  (24 hours), constructs the message and returns it, having pushed it onto the head of Q
  when \<open>delay_seconds\<close> is 0 (or negative), or added it to Q:delayed with score
  now + \<open>delay_seconds\<close> when \<open>delay_seconds\<close> is positive. Without a key (\<open>None\<close> or
  the empty string) it enqueues in the same way and sets no key.
\<close>

theorem enqueue_idempotency:
  "(key \<noteq> [] \<and> key \<in> fst ` set (idempotency_keys q) \<longrightarrow>
      enqueue config q execution_id task_type payload (Some key) delay_seconds = (None, q)) \<and>
   (key \<noteq> [] \<and> key \<notin> fst ` set (idempotency_keys q) \<longrightarrow>
      (\<exists>q'. enqueue config q execution_id task_type payload (Some key) delay_seconds =
              (Some (new_message config q execution_id task_type payload), q') \<and>
            idempotency_keys q' = idempotency_keys q @ [(key, Some 86400)] \<and>
            processing q' = processing q \<and> dlq q' = dlq q \<and>
            (delay_seconds \<le> 0 \<longrightarrow>
               ready q' = new_message config q execution_id task_type payload # ready q \<and>
               delayed q' = delayed q) \<and>
            (delay_seconds > 0 \<longrightarrow>
               ready q' = ready q \<and>
               delayed q' =
                 AList.update (new_message config q execution_id task_type payload)
                   (q_clock q (Suc (q_ticks q)) + real_of_int delay_seconds) (delayed q)))) \<and>
   (idempotency_key = None \<or> idempotency_key = Some [] \<longrightarrow>
      (\<exists>q'. enqueue config q execution_id task_type payload idempotency_key delay_seconds =
              (Some (new_message config q execution_id task_type payload), q') \<and>
            idempotency_keys q' = idempotency_keys q \<and>
            processing q' = processing q \<and> dlq q' = dlq q \<and>
            (delay_seconds \<le> 0 \<longrightarrow>
               ready q' = new_message config q execution_id task_type payload # ready q \<and>
               delayed q' = delayed q) \<and>
            (delay_seconds > 0 \<longrightarrow>
               ready q' = ready q \<and>
               delayed q' =
                 AList.update (new_message config q execution_id task_type payload)
                   (q_clock q (Suc (q_ticks q)) + real_of_int delay_seconds) (delayed q))))"
proof (intro conjI impI)
  assume "key \<noteq> [] \<and> key \<in> fst ` set (idempotency_keys q)"
  then show "enqueue config q execution_id task_type payload (Some key) delay_seconds = (None, q)"
    by (simp add: enqueue_duplicate)
next
  assume a: "key \<noteq> [] \<and> key \<notin> fst ` set (idempotency_keys q)"
  then have k: "key \<noteq> []" "key \<notin> fst ` set (idempotency_keys q)" by simp_all
  show "\<exists>q'. enqueue config q execution_id task_type payload (Some key) delay_seconds =
              (Some (new_message config q execution_id task_type payload), q') \<and>
            idempotency_keys q' = idempotency_keys q @ [(key, Some 86400)] \<and>
            processing q' = processing q \<and> dlq q' = dlq q \<and>
            (delay_seconds \<le> 0 \<longrightarrow>
               ready q' = new_message config q execution_id task_type payload # ready q \<and>
               delayed q' = delayed q) \<and>
            (delay_seconds > 0 \<longrightarrow>
               ready q' = ready q \<and>
               delayed q' =
                 AList.update (new_message config q execution_id task_type payload)
                   (q_clock q (Suc (q_ticks q)) + real_of_int delay_seconds) (delayed q))"
    by (cases "delay_seconds > 0") (simp_all add: enqueue_fresh [OF k])
next
  assume a: "idempotency_key = None \<or> idempotency_key = Some []"
  show "\<exists>q'. enqueue config q execution_id task_type payload idempotency_key delay_seconds =
              (Some (new_message config q execution_id task_type payload), q') \<and>
            idempotency_keys q' = idempotency_keys q \<and>
            processing q' = processing q \<and> dlq q' = dlq q \<and>
            (delay_seconds \<le> 0 \<longrightarrow>
               ready q' = new_message config q execution_id task_type payload # ready q \<and>
               delayed q' = delayed q) \<and>
            (delay_seconds > 0 \<longrightarrow>
               ready q' = ready q \<and>
               delayed q' =
                 AList.update (new_message config q execution_id task_type payload)
                   (q_clock q (Suc (q_ticks q)) + real_of_int delay_seconds) (delayed q))"
    by (cases "delay_seconds > 0") (simp_all add: enqueue_no_key [OF a])
qed

theorem enqueue_idempotency_witness:
  "enqueue default_config scenario_queue 2 ''execute_workflow'' None (Some ''K'') 0 =
     (None, scenario_queue) \<and>
   (\<exists>q'. enqueue default_config scenario_queue 2 ''execute_workflow'' None (Some ''J'') 5 =
          (Some \<lparr>msg_id = 500, msg_execution_id = 2, msg_task_type = ''execute_workflow'',
                 msg_payload = [], msg_created_at = 100, msg_attempt = 1,
                 msg_visibility_timeout = 30\<rparr>, q') \<and>
        idempotency_keys q' = [(''K'', Some 86400), (''J'', Some 86400)] \<and>
        ready q' = ready scenario_queue \<and>
        map snd (delayed q') = [106])"
proof -
  have 1: "''K'' \<noteq> [] \<and> ''K'' \<in> fst ` set (idempotency_keys scenario_queue)"
    by (simp add: scenario_queue_def)
  have 2: "''J'' \<noteq> [] \<and> ''J'' \<notin> fst ` set (idempotency_keys scenario_queue)"
    by (simp add: scenario_queue_def)
  note T = enqueue_idempotency [where q = scenario_queue and config = default_config and
      execution_id = 2 and task_type = "''execute_workflow''" and payload = None]
  from T [where key = "''K''" and delay_seconds = 0, THEN conjunct1] 1
  have a: "enqueue default_config scenario_queue 2 ''execute_workflow'' None (Some ''K'') 0 =
     (None, scenario_queue)" by blast
  from T [where key = "''J''" and delay_seconds = 5, THEN conjunct2, THEN conjunct1] 2
  have b: "\<exists>q'. enqueue default_config scenario_queue 2 ''execute_workflow'' None (Some ''J'') 5 =
          (Some (new_message default_config scenario_queue 2 ''execute_workflow'' None), q') \<and>
        idempotency_keys q' = idempotency_keys scenario_queue @ [(''J'', Some 86400)] \<and>
        ready q' = ready scenario_queue \<and>
        delayed q' =
          AList.update (new_message default_config scenario_queue 2 ''execute_workflow'' None)
            (q_clock scenario_queue (Suc (q_ticks scenario_queue)) + real_of_int 5)
            (delayed scenario_queue)"
    by auto
  have m: "new_message default_config scenario_queue 2 ''execute_workflow'' None =
      \<lparr>msg_id = 500, msg_execution_id = 2, msg_task_type = ''execute_workflow'',
        msg_payload = [], msg_created_at = 100, msg_attempt = 1, msg_visibility_timeout = 30\<rparr>"
    by (simp add: new_message_def scenario_queue_def default_config_def)
  have c: "q_clock scenario_queue (Suc (q_ticks scenario_queue)) + real_of_int 5 = 106"
    "delayed scenario_queue = []"
    "idempotency_keys scenario_queue = [(''K'', Some 86400)]"
    by (simp_all add: scenario_queue_def)
  from a b show ?thesis unfolding m c by auto
qed

subsection \<open>recover\_stale\_messages\<close>

lemma remove_stale_prefix:
  "\<forall>z\<in>set zs. \<not> P z \<Longrightarrow>
   foldl (\<lambda>p m. remove1 m p) (zs @ xs) (filter P xs) = zs @ filter (\<lambda>x. \<not> P x) xs"
proof (induction xs arbitrary: zs)
  case Nil
  then show ?case by simp
next
  case (Cons x xs)
  show ?case
  proof (cases "P x")
    case True
    then have "x \<notin> set zs" using Cons.prems by auto
    then have "remove1 x (zs @ x # xs) = zs @ xs" by (simp add: remove1_append)
    then show ?thesis using True Cons.IH [OF Cons.prems] by simp
  next
    case False
    then have "\<forall>z\<in>set (zs @ [x]). \<not> P z" using Cons.prems by simp
    from Cons.IH [OF this] False show ?thesis by simp
  qed
qed

lemma remove_stale:
  "foldl (\<lambda>p m. remove1 m p) xs (filter P xs) = filter (\<lambda>x. \<not> P x) xs"
  using remove_stale_prefix [of "[]" P xs] by simp

lemma recover_loop_result:
  "recover_loop xs q n = (n', q') \<Longrightarrow>
   n' = n + length (filter (stale q) xs) \<and>
   processing q' = foldl (\<lambda>p m. remove1 m p) (processing q) (filter (stale q) xs) \<and>
   ready q' =
     rev (map next_attempt (filter (\<lambda>m. stale q m \<and> msg_attempt m + 1 \<le> 3) xs)) @ ready q \<and>
   dlq q' =
     rev (map (dead_letter \<circ> next_attempt)
            (filter (\<lambda>m. stale q m \<and> \<not> msg_attempt m + 1 \<le> 3) xs)) @ dlq q \<and>
   processing_keys q' = processing_keys q \<and> idempotency_keys q' = idempotency_keys q \<and>
   delayed q' = delayed q"
proof (induction xs arbitrary: q n)
  case Nil
  then show ?case by simp
next
  case (Cons m xs)
  show ?case
  proof (cases "stale q m")
    case False
    then have "recover_loop xs q n = (n', q')" using Cons.prems by (simp add: stale_def)
    from Cons.IH [OF this] False show ?thesis by simp
  next
    case True
    let ?q1 = "q\<lparr>processing := remove1 m (processing q)\<rparr>"
    show ?thesis
    proof (cases "msg_attempt m + 1 \<le> 3")
      case ok: True
      let ?q2 = "?q1\<lparr>ready := next_attempt m # ready ?q1\<rparr>"
      have "recover_loop xs ?q2 (n + 1) = (n', q')"
        using Cons.prems True ok by (simp add: stale_def next_attempt_def Let_def)
      from Cons.IH [OF this] have ih:
        "n' = n + 1 + length (filter (stale ?q2) xs)"
        "processing q' = foldl (\<lambda>p m. remove1 m p) (processing ?q2) (filter (stale ?q2) xs)"
        "ready q' = rev (map next_attempt
            (filter (\<lambda>m. stale ?q2 m \<and> msg_attempt m + 1 \<le> 3) xs)) @ ready ?q2"
        "dlq q' = rev (map (dead_letter \<circ> next_attempt)
            (filter (\<lambda>m. stale ?q2 m \<and> \<not> msg_attempt m + 1 \<le> 3) xs)) @ dlq ?q2"
        "processing_keys q' = processing_keys ?q2" "idempotency_keys q' = idempotency_keys ?q2"
        "delayed q' = delayed ?q2"
        by simp_all
      have st: "stale ?q2 = stale q" by (rule ext) (simp add: stale_def)
      from ih True ok show ?thesis unfolding st by simp
    next
      case no: False
      let ?q2 = "?q1\<lparr>dlq := dead_letter (next_attempt m) # dlq ?q1\<rparr>"
      have "recover_loop xs ?q2 (n + 1) = (n', q')"
        using Cons.prems True no
        by (simp add: stale_def next_attempt_def dead_letter_def Let_def)
      from Cons.IH [OF this] have ih:
        "n' = n + 1 + length (filter (stale ?q2) xs)"
        "processing q' = foldl (\<lambda>p m. remove1 m p) (processing ?q2) (filter (stale ?q2) xs)"
        "ready q' = rev (map next_attempt
            (filter (\<lambda>m. stale ?q2 m \<and> msg_attempt m + 1 \<le> 3) xs)) @ ready ?q2"
        "dlq q' = rev (map (dead_letter \<circ> next_attempt)
            (filter (\<lambda>m. stale ?q2 m \<and> \<not> msg_attempt m + 1 \<le> 3) xs)) @ dlq ?q2"
        "processing_keys q' = processing_keys ?q2" "idempotency_keys q' = idempotency_keys ?q2"
        "delayed q' = delayed ?q2"
        by simp_all
      have st: "stale ?q2 = stale q" by (rule ext) (simp add: stale_def)
      from ih True no show ?thesis unfolding st by simp
    qed
  qed
qed

text \<open>
  Claim C7. \<open>recover_stale_messages\<close> scans Q:processing and, for every entry whose
  visibility key is missing, removes it from Q:processing and either pushes it onto Q with
  its attempt incremented, when the incremented attempt is at most 3, or pushes it onto
  Q:dlq with the attempt incremented and \<open>dlq_reason = "max_attempts_exceeded"\<close> in its
  payload; the entries whose key still exists stay in Q:processing, in their order, and
  the call returns the number of entries recovered. (Each push is at the head, so the
  recovered messages appear in reverse order of the scan.)
\<close>

theorem recover_stale_messages_result:
  "fst (recover_stale_messages q) = length (filter (stale q) (processing q)) \<and>
   processing (snd (recover_stale_messages q)) =
     filter (\<lambda>m. \<not> stale q m) (processing q) \<and>
   ready (snd (recover_stale_messages q)) =
     rev (map next_attempt
            (filter (\<lambda>m. stale q m \<and> msg_attempt m + 1 \<le> 3) (processing q))) @ ready q \<and>
   dlq (snd (recover_stale_messages q)) =
     rev (map (dead_letter \<circ> next_attempt)
            (filter (\<lambda>m. stale q m \<and> \<not> msg_attempt m + 1 \<le> 3) (processing q))) @ dlq q \<and>
   processing_keys (snd (recover_stale_messages q)) = processing_keys q \<and>
   delayed (snd (recover_stale_messages q)) = delayed q"
proof -
  obtain n' q' where r: "recover_loop (processing q) q 0 = (n', q')"
    by (cases "recover_loop (processing q) q 0") auto
  from recover_loop_result [OF r] remove_stale [of "processing q" "stale q"] r
  show ?thesis by (simp add: recover_stale_messages_def)
qed

theorem recover_stale_messages_result_witness:
  "fst (recover_stale_messages
     (scenario_queue\<lparr>processing := [scenario_message 1 1, scenario_message 2 2,
                                     scenario_message 3 3],
                     processing_keys := [2]\<rparr>)) = 2 \<and>
   processing (snd (recover_stale_messages
     (scenario_queue\<lparr>processing := [scenario_message 1 1, scenario_message 2 2,
                                     scenario_message 3 3],
                     processing_keys := [2]\<rparr>))) = [scenario_message 2 2] \<and>
   ready (snd (recover_stale_messages
     (scenario_queue\<lparr>processing := [scenario_message 1 1, scenario_message 2 2,
                                     scenario_message 3 3],
                     processing_keys := [2]\<rparr>))) = [scenario_message 1 2] \<and>
   dlq (snd (recover_stale_messages
     (scenario_queue\<lparr>processing := [scenario_message 1 1, scenario_message 2 2,
                                     scenario_message 3 3],
                     processing_keys := [2]\<rparr>))) =
     [(scenario_message 3 4)\<lparr>msg_payload :=
         [(''dlq_reason'', JStr (Lit ''max_attempts_exceeded''))]\<rparr>]"
proof -
  let ?q = "scenario_queue\<lparr>processing := [scenario_message 1 1, scenario_message 2 2,
      scenario_message 3 3], processing_keys := [2]\<rparr>"
  let ?r = "recover_stale_messages ?q"
  have p: "processing ?q = [scenario_message 1 1, scenario_message 2 2, scenario_message 3 3]"
    "ready ?q = []" "dlq ?q = []"
    by (simp_all add: scenario_queue_def)
  have s: "stale ?q (scenario_message 1 1)" "\<not> stale ?q (scenario_message 2 2)"
    "stale ?q (scenario_message 3 3)"
    by (simp_all add: stale_def scenario_message_def)
  have a: "msg_attempt (scenario_message 1 1) + 1 \<le> 3"
    "\<not> msg_attempt (scenario_message 3 3) + 1 \<le> 3"
    by (simp_all add: scenario_message_def)
  have n: "next_attempt (scenario_message 1 1) = scenario_message 1 2"
    "dead_letter (next_attempt (scenario_message 3 3)) =
       (scenario_message 3 4)\<lparr>msg_payload :=
         [(''dlq_reason'', JStr (Lit ''max_attempts_exceeded''))]\<rparr>"
    by (simp_all add: next_attempt_def dead_letter_def scenario_message_def)
  from recover_stale_messages_result [of ?q] have
    "fst ?r = 2" "processing (snd ?r) = [scenario_message 2 2]"
    "ready (snd ?r) = [next_attempt (scenario_message 1 1)]"
    "dlq (snd ?r) = [dead_letter (next_attempt (scenario_message 3 3))]"
    unfolding p using s a by simp_all
  then show ?thesis unfolding n by simp
qed

end
